theory Spec2Isabelle
  imports Main "HOL-Library.Word"
begin

section \<open>The NR MAC of the base station (srsenb/src/stack/mac/nr/mac\_nr.cc)\<close>

text \<open>
  The class \<open>mac_nr\<close> is embedded as a record of its members and one function per
  method. A method takes the object and returns the object it leaves behind. Calls to
  the collaborators (RRC, RLC, PHY, stack), to the packet capture and to the logger are
  appended to the member \<open>trace\<close>, in program order, so that what a method did to the
  outside is a value one can state theorems about. Undefined behaviour and exceptions
  of the C++ (a null handle or buffer, \<open>vector::at\<close> out of range, a remainder by zero,
  a write past the end of the descriptor array) are results \<open>Inl fault\<close>.
\<close>

subsection \<open>Data\<close>

type_synonym byte = "8 word"

text \<open>
  A \<open>byte_buffer_t\<close> is modelled by the bytes \<open>msg[0 .. N_bytes)\<close>: \<open>N_bytes\<close> is the
  length of the list and \<open>clear()\<close> leaves the empty list.
\<close>

type_synonym byte_buffer = "byte list"

datatype fault = Null_pointer | Out_of_range | Division_by_zero | Pdu_array_overflow

text \<open>
  The members of \<open>mac_nr_args_t\<close> that mac\_nr.cc reads (the struct is declared in a
  header outside src/). \<open>tb_size - 2\<close> is handed to a \<open>uint32_t\<close> parameter, so the
  transport block size is a 32-bit word.
\<close>

record mac_nr_args =
  rnti :: "16 word"
  tb_size :: "32 word"
  pcap_enable :: bool

text \<open>
  \<open>sib_info_t\<close>: \<open>tti % (sib.periodicity * 10)\<close> is computed with the \<open>uint32_t\<close> slot
  index, hence in unsigned 32-bit arithmetic.
\<close>

record sib_info =
  sib_index :: "32 word"
  sib_periodicity :: "32 word"
  sib_payload :: byte_buffer

text \<open>
  A descriptor's \<open>data[0]\<close> is a pointer to the \<open>msg\<close> area of one of the object's
  buffers. The pointer is modelled by the name of the buffer it points into: the BCH
  buffer, the payload of the SIB at a position of \<open>bcch_dlsch_payload\<close>, or the transmit
  buffer at a position of \<open>ue_tx_buffer\<close>.
\<close>

datatype buf_ref = Bcch_bch_msg | Sib_msg nat | Ue_tx_msg nat

record tx_request_pdu =
  pbch_mib_present :: bool
  pdu_data :: "buf_ref option"
  pdu_length :: nat
  pdu_index :: nat

text \<open>
  \<open>tx_request_t\<close>: \<open>pdus\<close> is a C array; the list's length is the array's fixed
  capacity, and \<open>nof_pdus\<close> counts the entries that are filled.
\<close>

record tx_request =
  tx_tti :: "32 word"
  nof_pdus :: nat
  pdus :: "tx_request_pdu list"

record dl_config_request =
  cfg_tti :: "32 word"

record cell_cfg_sib_t =
  len :: int
  period_rf :: int

record cell_cfg_t =
  sibs :: "cell_cfg_sib_t list"

record rx_data_ind_t =
  rx_tti :: "32 word"
  rx_rnti :: "16 word"
  tb :: "byte_buffer option"

datatype log_msg =
    Started_msg
  | Adding_BCH "32 word"
  | Couldnt_read_BCH
  | Adding_SIB "32 word" "32 word"
  | Adding_MAC_PDU "16 word"
  | Read_from_RLC nat
  | Generated_MAC_PDU nat
  | Handling_MAC_PDU nat
  | Handling_subPDU nat nat "32 word" nat
  | Couldnt_read_SIB "32 word"
  | Including_SIB "32 word"

datatype event =
    Log log_msg
  | Pcap_open
  | Pcap_close
  | Pcap_write_dl_bch byte_buffer "32 word"
  | Pcap_write_dl_si_rnti_nr byte_buffer "32 word"
  | Pcap_write_dl_crnti_nr byte_buffer "16 word" nat "32 word"
  | Pcap_write_ul_crnti_nr byte_buffer "16 word" "32 word"
  | Rrc_read_pdu_bcch_bch "32 word"
  | Rrc_read_pdu_bcch_dlsch "32 word"
  | Rlc_read_pdu "16 word" "32 word" "32 word"
  | Rlc_write_pdu "16 word" "32 word" byte_buffer
  | Phy_dl_config_request dl_config_request
  | Phy_tx_request tx_request
  | Stack_process_pdus

text \<open>
  The object. \<open>handles\<close> says whether \<open>phy_h\<close>, \<open>stack_h\<close>, \<open>rlc_h\<close> and \<open>rrc_h\<close> are
  bound (\<open>init\<close> assigns the four together), \<open>pcap\<close> whether the capture object exists.
  A buffer member that is \<open>nullptr\<close> is \<open>None\<close>.
\<close>

record mac_nr =
  started :: bool
  args :: mac_nr_args
  handles :: bool
  pcap :: bool
  cfg :: "cell_cfg_t option"
  bcch_bch_payload :: "byte_buffer option"
  ue_tx_buffer :: "byte_buffer list"
  ue_rlc_buffer :: "byte_buffer option"
  bcch_dlsch_payload :: "sib_info list"
  ue_rx_pdu_queue :: "byte_buffer list"
  trace :: "event list"

text \<open>
  What the code outside mac\_nr.cc answers when it is called. The RRC readers get the
  buffer and return a status and the buffer as they leave it. The RLC reader returns
  its \<open>int\<close> result and the \<open>msg\<close> area it wrote to, as a function of the offset.
  \<open>mac_sch_pdu_pack tb lcid sdu\<close> is the content of the transmit buffer after
  \<open>init_tx(buffer, tb)\<close>, \<open>add_sdu(lcid, sdu)\<close> and \<open>pack()\<close>;
  \<open>mac_sch_pdu_unpack\<close> is \<open>init_rx\<close> and \<open>unpack\<close>, \<open>None\<close> when it does not
  return \<open>SRSRAN_SUCCESS\<close>, and else the (lcid, sdu) of the sub-PDUs in order.
\<close>

record env =
  read_pdu_bcch_bch :: "32 word \<Rightarrow> byte_buffer \<Rightarrow> int \<times> byte_buffer"
  read_pdu_bcch_dlsch :: "32 word \<Rightarrow> byte_buffer \<Rightarrow> int \<times> byte_buffer"
  read_pdu :: "16 word \<Rightarrow> 32 word \<Rightarrow> 32 word \<Rightarrow> int \<times> (nat \<Rightarrow> byte)"
  mac_sch_pdu_pack :: "32 word \<Rightarrow> 32 word \<Rightarrow> byte list \<Rightarrow> byte list"
  mac_sch_pdu_unpack :: "byte list \<Rightarrow> (32 word \<times> byte list) list option"

subsection \<open>Constants declared outside src/\<close>

definition SRSRAN_SUCCESS :: int where
  \<comment> \<open>Modelled from the spec: the macro is declared in a header that is not under
      src/; the status that the spec calls success.\<close>
  "SRSRAN_SUCCESS = 0"

definition SRSRAN_ERROR :: int where
  \<comment> \<open>Modelled from the spec: the macro is declared in a header that is not under
      src/; the status of a failure.\<close>
  "SRSRAN_ERROR = - 1"

definition SRSRAN_FDD_NOF_HARQ :: nat where
  \<comment> \<open>Modelled from the spec: the macro is declared in a header that is not under
      src/; it is the spec's pool size, and the comment in \<open>init\<close> counts 8 buffers.\<close>
  "SRSRAN_FDD_NOF_HARQ = 8"

definition bind_fault :: "fault + 'a \<Rightarrow> ('a \<Rightarrow> fault + 'b) \<Rightarrow> fault + 'b" where
  "bind_fault m f = (case m of Inl e \<Rightarrow> Inl e | Inr x \<Rightarrow> f x)"

definition emit :: "event list \<Rightarrow> mac_nr \<Rightarrow> mac_nr" where
  "emit es st = st\<lparr>trace := trace st @ es\<rparr>"

subsection \<open>init and stop\<close>

text \<open>
  \<open>make_byte_buffer\<close> returns \<open>nullptr\<close> when no buffer can be had. \<open>avail\<close> is the
  number of buffers the allocator can still give.
\<close>

definition make_byte_buffer :: "nat \<Rightarrow> byte_buffer option \<times> nat" where
  "make_byte_buffer avail = (if avail = 0 then (None, 0) else (Some [], avail - 1))"

text \<open>The loop of \<open>init\<close> that fills \<open>ue_tx_buffer\<close>; \<open>n\<close> iterations are left.\<close>

fun alloc_tx_buffers :: "nat \<Rightarrow> nat \<Rightarrow> byte_buffer list \<Rightarrow> bool \<times> byte_buffer list \<times> nat" where
  "alloc_tx_buffers 0 avail bufs = (True, bufs, avail)"
| "alloc_tx_buffers (Suc n) avail bufs =
     (case make_byte_buffer avail of
        (None, avail') \<Rightarrow> (False, bufs, avail')
      | (Some buffer, avail') \<Rightarrow> alloc_tx_buffers n avail' (bufs @ [buffer]))"

definition init :: "mac_nr_args \<Rightarrow> nat \<Rightarrow> mac_nr \<Rightarrow> int \<times> mac_nr" where
  "init a avail st =
     (let st1 = st\<lparr>args := a, handles := True\<rparr>;
          st2 = (if pcap_enable a then emit [Pcap_open] (st1\<lparr>pcap := True\<rparr>) else st1);
          (bch, avail1) = make_byte_buffer avail;
          st3 = st2\<lparr>bcch_bch_payload := bch\<rparr>
      in if bch = None then (SRSRAN_ERROR, st3)
         else
           let (ok, bufs, avail2) = alloc_tx_buffers SRSRAN_FDD_NOF_HARQ avail1 (ue_tx_buffer st3);
               st4 = st3\<lparr>ue_tx_buffer := bufs\<rparr>
           in if \<not> ok then (SRSRAN_ERROR, st4)
              else
                let (rlc, avail3) = make_byte_buffer avail2;
                    st5 = st4\<lparr>ue_rlc_buffer := rlc\<rparr>
                in if rlc = None then (SRSRAN_ERROR, st5)
                   else (SRSRAN_SUCCESS, (emit [Log Started_msg] st5)\<lparr>started := True\<rparr>))"

definition stop :: "mac_nr \<Rightarrow> mac_nr" where
  "stop st =
     (if started st
      then (if pcap st then emit [Pcap_close] st else st)\<lparr>started := False\<rparr>
      else st)"

text \<open>The object as the constructor leaves it, with an empty trace.\<close>

definition mac_nr_new :: mac_nr where
  "mac_nr_new =
     \<lparr>started = False, args = \<lparr>rnti = 0, tb_size = 0, pcap_enable = False\<rparr>,
      handles = False, pcap = False, cfg = None, bcch_bch_payload = None,
      ue_tx_buffer = [], ue_rlc_buffer = None, bcch_dlsch_payload = [],
      ue_rx_pdu_queue = [], trace = []\<rparr>"

subsection \<open>get\_dl\_config\<close>

text \<open>
  The four statements that fill \<open>tx_request.pdus[tx_request.nof_pdus]\<close> and the
  increment of \<open>nof_pdus\<close>; \<open>f\<close> sets the fields the branch assigns. The C++ does not
  test the index against the array's size.
\<close>

definition write_pdu :: "(tx_request_pdu \<Rightarrow> tx_request_pdu) \<Rightarrow> tx_request \<Rightarrow> fault + tx_request" where
  "write_pdu f req =
     (if nof_pdus req < length (pdus req)
      then Inr (req\<lparr>pdus := (pdus req)[nof_pdus req := f (pdus req ! nof_pdus req)],
                    nof_pdus := nof_pdus req + 1\<rparr>)
      else Inl Pdu_array_overflow)"

text \<open>Lines 97 to 114: the MIB, every 80 slots.\<close>

definition sched_bch :: "env \<Rightarrow> 32 word \<Rightarrow> mac_nr \<Rightarrow> tx_request \<Rightarrow> fault + (mac_nr \<times> tx_request)" where
  "sched_bch e tti st req =
     (if tti mod 80 = 0 then
        if \<not> handles st then Inl Null_pointer
        else
          case bcch_bch_payload st of
            None \<Rightarrow> Inl Null_pointer
          | Some buf \<Rightarrow>
              let (rc, buf') = read_pdu_bcch_bch e tti buf;
                  st1 = emit [Rrc_read_pdu_bcch_bch tti] (st\<lparr>bcch_bch_payload := Some buf'\<rparr>)
              in if rc = SRSRAN_SUCCESS then
                   bind_fault
                     (write_pdu (\<lambda>p. p\<lparr>pbch_mib_present := True, pdu_data := Some Bcch_bch_msg,
                                        pdu_length := length buf', pdu_index := nof_pdus req\<rparr>) req)
                     (\<lambda>req'. Inr (emit ([Log (Adding_BCH tti)] @
                                         (if pcap st then [Pcap_write_dl_bch buf' tti] else [])) st1,
                                   req'))
                 else Inr (emit [Log Couldnt_read_BCH] st1, req)
      else Inr (st, req))"

text \<open>
  Lines 117 to 133: the loop over \<open>bcch_dlsch_payload\<close>. \<open>k\<close> is the position of the
  head of the remaining list in the vector.
\<close>

fun sched_sibs :: "32 word \<Rightarrow> nat \<Rightarrow> sib_info list \<Rightarrow> mac_nr \<Rightarrow> tx_request \<Rightarrow> fault + (mac_nr \<times> tx_request)" where
  "sched_sibs tti k [] st req = Inr (st, req)"
| "sched_sibs tti k (sib # rest) st req =
     (if 0 < length (sib_payload sib) then
        if sib_periodicity sib * 10 = 0 then Inl Division_by_zero
        else if tti mod (sib_periodicity sib * 10) = 0 then
          bind_fault
            (write_pdu (\<lambda>p. p\<lparr>pdu_data := Some (Sib_msg k),
                               pdu_length := length (sib_payload sib),
                               pdu_index := nof_pdus req\<rparr>) req)
            (\<lambda>req'. sched_sibs tti (Suc k) rest
                       (emit ([Log (Adding_SIB (sib_index sib) tti)] @
                              (if pcap st then [Pcap_write_dl_si_rnti_nr (sib_payload sib) tti] else []))
                          st)
                       req')
        else sched_sibs tti (Suc k) rest st req
      else sched_sibs tti (Suc k) rest st req)"

text \<open>Lines 135 to 175: the MAC PDU of the UE, when nothing was added before.\<close>

definition sched_ue :: "env \<Rightarrow> 32 word \<Rightarrow> mac_nr \<Rightarrow> tx_request \<Rightarrow> fault + (mac_nr \<times> tx_request)" where
  "sched_ue e tti st req =
     (if nof_pdus req = 0 then
        let buffer_index = unat tti mod SRSRAN_FDD_NOF_HARQ in
        if \<not> buffer_index < length (ue_tx_buffer st) then Inl Out_of_range
        else
          let st1 = st\<lparr>ue_tx_buffer := (ue_tx_buffer st)[buffer_index := []]\<rparr> in
          if ue_rlc_buffer st1 = None \<or> \<not> handles st1 then Inl Null_pointer
          else
            let (pdu_len, msg) = read_pdu e (rnti (args st1)) 4 (tb_size (args st1) - 2);
                st2 = emit [Rlc_read_pdu (rnti (args st1)) 4 (tb_size (args st1) - 2)]
                        (st1\<lparr>ue_rlc_buffer := Some []\<rparr>)
            in if 0 < pdu_len then
                 let sdu = map msg [0..<nat pdu_len];
                     st3 = emit [Log (Adding_MAC_PDU (rnti (args st2))), Log (Read_from_RLC (length sdu))]
                             (st2\<lparr>ue_rlc_buffer := Some sdu\<rparr>);
                     packed = mac_sch_pdu_pack e (tb_size (args st3)) 4 sdu;
                     st4 = emit [Log (Generated_MAC_PDU (length packed))]
                             (st3\<lparr>ue_tx_buffer := (ue_tx_buffer st3)[buffer_index := packed]\<rparr>)
                 in bind_fault
                      (write_pdu (\<lambda>p. p\<lparr>pdu_data := Some (Ue_tx_msg buffer_index),
                                         pdu_length := length packed,
                                         pdu_index := nof_pdus req\<rparr>) req)
                      (\<lambda>req'. Inr (emit (if pcap st4
                                          then [Pcap_write_dl_crnti_nr packed (rnti (args st4)) buffer_index tti]
                                          else []) st4,
                                    req'))
               else Inr (st2, req)
      else Inr (st, req))"

definition get_dl_config ::
  "env \<Rightarrow> 32 word \<Rightarrow> mac_nr \<Rightarrow> dl_config_request \<Rightarrow> tx_request
     \<Rightarrow> fault + (mac_nr \<times> dl_config_request \<times> tx_request)" where
  "get_dl_config e tti st config_request tx_req =
     bind_fault (sched_bch e tti st tx_req) (\<lambda>(st1, req1).
     bind_fault (sched_sibs tti 0 (bcch_dlsch_payload st1) st1 req1) (\<lambda>(st2, req2).
     bind_fault (sched_ue e tti st2 req2) (\<lambda>(st3, req3).
       Inr (st3, config_request\<lparr>cfg_tti := tti\<rparr>, req3\<lparr>tx_tti := tti\<rparr>))))"

subsection \<open>The entry points of the PHY\<close>

text \<open>
  \<open>tx_request_t tx_request = {}\<close>: all members zero. \<open>max_pdus\<close> is the size of the
  array \<open>pdus\<close>, a constant of a header outside src/.
\<close>

definition pdu_zero :: tx_request_pdu where
  "pdu_zero = \<lparr>pbch_mib_present = False, pdu_data = None, pdu_length = 0, pdu_index = 0\<rparr>"

definition tx_request_zero :: "nat \<Rightarrow> tx_request" where
  "tx_request_zero max_pdus = \<lparr>tx_tti = 0, nof_pdus = 0, pdus = replicate max_pdus pdu_zero\<rparr>"

definition slot_indication :: "env \<Rightarrow> nat \<Rightarrow> 32 word \<Rightarrow> mac_nr \<Rightarrow> fault + (int \<times> mac_nr)" where
  "slot_indication e max_pdus idx st =
     bind_fault (get_dl_config e idx st \<lparr>cfg_tti = 0\<rparr> (tx_request_zero max_pdus))
       (\<lambda>(st1, config_request, tx_req).
          if \<not> handles st1 then Inl Null_pointer
          else Inr (SRSRAN_SUCCESS,
                    emit [Phy_dl_config_request config_request, Phy_tx_request tx_req] st1))"

definition rx_data_indication :: "rx_data_ind_t \<Rightarrow> mac_nr \<Rightarrow> fault + (int \<times> mac_nr)" where
  "rx_data_indication rx_data st =
     (let st1 = (case tb rx_data of
                   None \<Rightarrow> st
                 | Some b \<Rightarrow>
                     (emit (if pcap st then [Pcap_write_ul_crnti_nr b (rx_rnti rx_data) (rx_tti rx_data)]
                            else []) st)
                       \<lparr>ue_rx_pdu_queue := ue_rx_pdu_queue st @ [b]\<rparr>)
      in if \<not> handles st1 then Inl Null_pointer
         else Inr (SRSRAN_SUCCESS, emit [Stack_process_pdus] st1))"

subsection \<open>The drain loop\<close>

text \<open>
  \<open>handle_pdu\<close>: the loop over the sub-PDUs logs each one; the call of
  \<open>rlc_h->write_pdu\<close> in its body is commented out in the source.
\<close>

definition subpdu_logs :: "(32 word \<times> byte list) list \<Rightarrow> event list" where
  "subpdu_logs subpdus =
     map (\<lambda>i. Log (Handling_subPDU i (length subpdus) (fst (subpdus ! i)) (length (snd (subpdus ! i)))))
       [0..<length subpdus]"

definition handle_pdu :: "env \<Rightarrow> byte_buffer \<Rightarrow> mac_nr \<Rightarrow> int \<times> mac_nr" where
  "handle_pdu e pdu st =
     (let st1 = emit [Log (Handling_MAC_PDU (length pdu))] st
      in case mac_sch_pdu_unpack e pdu of
           None \<Rightarrow> (SRSRAN_ERROR, st1)
         | Some subpdus \<Rightarrow> (SRSRAN_SUCCESS, emit (subpdu_logs subpdus) st1))"

function process_pdus :: "env \<Rightarrow> mac_nr \<Rightarrow> mac_nr" where
  "process_pdus e st =
     (if started st \<and> ue_rx_pdu_queue st \<noteq> []
      then process_pdus e
             (snd (handle_pdu e (hd (ue_rx_pdu_queue st))
                     (st\<lparr>ue_rx_pdu_queue := tl (ue_rx_pdu_queue st)\<rparr>)))
      else st)"
  by pat_completeness auto
termination
  by (relation "measure (\<lambda>(e, st). length (ue_rx_pdu_queue st))")
    (auto simp: handle_pdu_def emit_def Let_def neq_Nil_conv split: option.split)

declare process_pdus.simps [simp del]

subsection \<open>cell\_cfg\<close>

text \<open>
  The loop of \<open>cell_cfg\<close> over \<open>i = 0 .. MAX_SIBS - 1\<close>, given as the list of the values
  of \<open>i\<close> that are left. \<open>cell_cfg->sibs->len\<close> reads element 0 of the array \<open>sibs\<close>.
  The source does not test what \<open>make_byte_buffer\<close> returns here; the model covers the
  run in which it returns a buffer.
\<close>

fun cell_cfg_sibs :: "env \<Rightarrow> cell_cfg_t \<Rightarrow> nat list \<Rightarrow> mac_nr \<Rightarrow> fault + mac_nr" where
  "cell_cfg_sibs e c [] st = Inr st"
| "cell_cfg_sibs e c (i # is) st =
     (case sibs c of
        [] \<Rightarrow> Inl Out_of_range
      | s0 # _ \<Rightarrow>
          if 0 < len s0 then
            if \<not> handles st then Inl Null_pointer
            else
              let idx = (of_nat i :: 32 word);
                  (rc, buf) = read_pdu_bcch_dlsch e idx [];
                  sib = \<lparr>sib_index = idx, sib_periodicity = of_int (period_rf s0), sib_payload = buf\<rparr>
              in cell_cfg_sibs e c is
                   ((emit ([Rrc_read_pdu_bcch_dlsch idx] @
                           (if rc \<noteq> SRSRAN_SUCCESS then [Log (Couldnt_read_SIB idx)] else []) @
                           [Log (Including_SIB idx)]) st)
                      \<lparr>bcch_dlsch_payload := bcch_dlsch_payload st @ [sib]\<rparr>)
          else cell_cfg_sibs e c is st)"

definition cell_cfg :: "env \<Rightarrow> nat \<Rightarrow> cell_cfg_t \<Rightarrow> mac_nr \<Rightarrow> fault + (int \<times> mac_nr)" where
  "cell_cfg e max_sibs c st =
     bind_fault (cell_cfg_sibs e c [0..<max_sibs] (st\<lparr>cfg := Some c\<rparr>))
       (\<lambda>st'. Inr (SRSRAN_SUCCESS, st'))"

subsection \<open>Notions used to state the properties\<close>

text \<open>An event that hands a sub-PDU to the upper layer.\<close>

fun is_delivery :: "event \<Rightarrow> bool" where
  "is_delivery (Rlc_write_pdu r l sdu) = True"
| "is_delivery ev = False"

definition deliveries :: "event list \<Rightarrow> event list" where
  "deliveries es = filter is_delivery es"

text \<open>
  The object after a successful \<open>init\<close>: the handles are bound and the buffers that
  \<open>get_dl_config\<close> dereferences exist.
\<close>

definition ready :: "mac_nr \<Rightarrow> bool" where
  "ready st =
     (handles st \<and> bcch_bch_payload st \<noteq> None \<and> SRSRAN_FDD_NOF_HARQ \<le> length (ue_tx_buffer st) \<and>
      ue_rlc_buffer st \<noteq> None)"

text \<open>
  What a method that assembles a request leaves alone: it may write the BCH buffer,
  the transmit buffers and the RLC buffer and extend the trace, without a delivery to
  the upper layer.
\<close>

definition frame :: "mac_nr \<Rightarrow> mac_nr \<Rightarrow> bool" where
  "frame st st' =
     (started st' = started st \<and> args st' = args st \<and> handles st' = handles st \<and>
      pcap st' = pcap st \<and> cfg st' = cfg st \<and>
      bcch_dlsch_payload st' = bcch_dlsch_payload st \<and>
      ue_rx_pdu_queue st' = ue_rx_pdu_queue st \<and>
      length (ue_tx_buffer st') = length (ue_tx_buffer st) \<and>
      (ue_rlc_buffer st = None) = (ue_rlc_buffer st' = None) \<and>
      (bcch_bch_payload st = None) = (bcch_bch_payload st' = None) \<and>
      (\<exists>es. trace st' = trace st @ es \<and> deliveries es = []))"

text \<open>The test of the SIB loop, and the SIBs for which the loop can evaluate it.\<close>

definition sib_due :: "32 word \<Rightarrow> sib_info \<Rightarrow> bool" where
  "sib_due tti sib = (sib_payload sib \<noteq> [] \<and> tti mod (sib_periodicity sib * 10) = 0)"

definition sibs_defined :: "sib_info list \<Rightarrow> bool" where
  "sibs_defined ss = list_all (\<lambda>sib. sib_payload sib = [] \<or> sib_periodicity sib * 10 \<noteq> 0) ss"


fun sib_pdus :: "nat \<Rightarrow> (nat \<times> sib_info) list \<Rightarrow> tx_request_pdu list" where
  "sib_pdus n [] = []"
| "sib_pdus n ((k, sib) # rest) =
     \<lparr>pbch_mib_present = False, pdu_data = Some (Sib_msg k),
      pdu_length = length (sib_payload sib), pdu_index = n\<rparr> # sib_pdus (Suc n) rest"

fun sib_events :: "bool \<Rightarrow> 32 word \<Rightarrow> (nat \<times> sib_info) list \<Rightarrow> event list" where
  "sib_events p tti [] = []"
| "sib_events p tti ((k, sib) # rest) =
     Log (Adding_SIB (sib_index sib) tti) #
     (if p then [Pcap_write_dl_si_rnti_nr (sib_payload sib) tti] else []) @ sib_events p tti rest"


definition ue_sdu :: "env \<Rightarrow> mac_nr \<Rightarrow> byte list" where
  "ue_sdu e st =
     (let (pdu_len, msg) = read_pdu e (rnti (args st)) 4 (tb_size (args st) - 2)
      in map msg [0..<nat pdu_len])"

definition ue_pdus :: "env \<Rightarrow> 32 word \<Rightarrow> mac_nr \<Rightarrow> tx_request_pdu list" where
  "ue_pdus e tti st =
     (if 0 < fst (read_pdu e (rnti (args st)) 4 (tb_size (args st) - 2))
      then [\<lparr>pbch_mib_present = False, pdu_data = Some (Ue_tx_msg (unat tti mod SRSRAN_FDD_NOF_HARQ)),
             pdu_length = length (mac_sch_pdu_pack e (tb_size (args st)) 4 (ue_sdu e st)),
             pdu_index = 0\<rparr>]
      else [])"



text \<open>A result with the member \<open>started\<close> of the object set to \<open>b\<close>.\<close>

definition with_started :: "bool \<Rightarrow> fault + (int \<times> mac_nr) \<Rightarrow> fault + (int \<times> mac_nr)" where
  "with_started b r = map_sum id (map_prod id (\<lambda>st. st\<lparr>started := b\<rparr>)) r"

subsection \<open>The MAC PDU codec\<close>

text \<open>
  The class \<open>mac_sch_pdu_nr\<close> behind \<open>ue_tx_pdu\<close> and \<open>ue_rx_pdu\<close> is not under src/.
  Section 4.1 of the specification describes it, and leaves the layout of the
  sub-header open ("channel id + length encoding"). The layout is a parameter: an
  encoder of the sub-header of a channel id and an SDU length (\<open>None\<close> when the layout
  has no sub-header for them), and a decoder that reads the sub-header at the front of
  the bytes and returns the channel id, the length field (\<open>None\<close> for the id reserved
  for padding, which has no length field) and the size of the sub-header.
\<close>

type_synonym subpdu = "32 word \<times> byte list"

datatype codec_error = Insufficient_space | Malformed_pdu

record wire_format =
  enc_subhdr :: "32 word \<Rightarrow> nat \<Rightarrow> byte list option"
  dec_subhdr :: "byte list \<Rightarrow> (32 word \<times> nat option \<times> nat) option"

fun pack :: "wire_format \<Rightarrow> nat \<Rightarrow> subpdu list \<Rightarrow> codec_error + byte list" where
  \<comment> \<open>Modelled from the spec: the pack operation of \<open>mac_sch_pdu_nr\<close>, which is not
      under src/. It emits each sub-PDU as sub-header and payload and rejects with
      "insufficient space" when the cumulative size would exceed the budget.\<close>
  "pack fmt budget [] = Inr []"
| "pack fmt budget ((lcid, sdu) # rest) =
     (case enc_subhdr fmt lcid (length sdu) of
        None \<Rightarrow> Inl Insufficient_space
      | Some hdr \<Rightarrow>
          if budget < length hdr + length sdu then Inl Insufficient_space
          else (case pack fmt (budget - (length hdr + length sdu)) rest of
                  Inl err \<Rightarrow> Inl err
                | Inr bytes \<Rightarrow> Inr (hdr @ sdu @ bytes)))"

function unpack :: "wire_format \<Rightarrow> byte list \<Rightarrow> codec_error + subpdu list" where
  \<comment> \<open>Modelled from the spec: the unpack operation of \<open>mac_sch_pdu_nr\<close>, which is not
      under src/. A zero-length input is an empty PDU; a sub-header that declares a
      length past the end of the buffer is malformed; the sub-PDU of the padding id
      takes the remainder of the buffer and ends the parsing.\<close>
  "unpack fmt bytes =
     (if bytes = [] then Inr []
      else
        case dec_subhdr fmt bytes of
          None \<Rightarrow> Inl Malformed_pdu
        | Some (lcid, field, h) \<Rightarrow>
            if h = 0 \<or> length bytes < h then Inl Malformed_pdu
            else
              (case field of
                 None \<Rightarrow> Inr [(lcid, drop h bytes)]
               | Some n \<Rightarrow>
                   if length bytes - h < n then Inl Malformed_pdu
                   else (case unpack fmt (drop (h + n) bytes) of
                           Inl err \<Rightarrow> Inl err
                         | Inr subpdus \<Rightarrow> Inr ((lcid, take n (drop h bytes)) # subpdus))))"
  by pat_completeness auto
termination
  by (relation "measure (\<lambda>(fmt, bytes). length bytes)") auto

declare unpack.simps [simp del]

text \<open>
  A layout can be parsed back when the decoder, put before any bytes that follow,
  finds the channel id and the length that the encoder was given.
\<close>

definition wire_format_ok :: "wire_format \<Rightarrow> bool" where
  "wire_format_ok fmt =
     (\<forall>lcid n hdr rest. enc_subhdr fmt lcid n = Some hdr \<longrightarrow>
        hdr \<noteq> [] \<and> dec_subhdr fmt (hdr @ rest) = Some (lcid, Some n, length hdr))"


text \<open>
  A layout for examples: one byte of channel id, with 255 reserved for padding, and
  one byte of length.
\<close>

definition example_format :: wire_format where
  "example_format =
     \<lparr>enc_subhdr = (\<lambda>lcid n. if lcid < 255 \<and> n < 256 then Some [ucast lcid, of_nat n] else None),
      dec_subhdr = (\<lambda>bytes.
        case bytes of
          [] \<Rightarrow> None
        | b # rest \<Rightarrow>
            if b = 255 then Some (255, None, 1)
            else (case rest of [] \<Rightarrow> None | n # _ \<Rightarrow> Some (ucast b, Some (unat n), 2)))\<rparr>"

subsection \<open>Example objects\<close>

definition args_ex :: mac_nr_args where
  "args_ex = \<lparr>rnti = 17, tb_size = 64, pcap_enable = False\<rparr>"

text \<open>
  Collaborators for the examples: the RRC has a MIB of three bytes and SIB 0 only, the
  RLC has two bytes to send, the codec is the one above with the example layout.
\<close>

definition env_ex :: env where
  "env_ex =
     \<lparr>read_pdu_bcch_bch = (\<lambda>tti buf. (0, [1, 2, 3])),
      read_pdu_bcch_dlsch = (\<lambda>idx buf. if idx = 0 then (0, [17, 34]) else (- 1, buf)),
      read_pdu = (\<lambda>r lcid n. (2, \<lambda>i. 7)),
      mac_sch_pdu_pack = (\<lambda>tb lcid sdu.
        case pack example_format (unat tb) [(lcid, sdu)] of Inr bytes \<Rightarrow> bytes | Inl err \<Rightarrow> []),
      mac_sch_pdu_unpack = (\<lambda>bytes.
        case unpack example_format bytes of Inr subpdus \<Rightarrow> Some subpdus | Inl err \<Rightarrow> None)\<rparr>"


text \<open>The object after \<open>init\<close> with enough buffers, and after \<open>stop\<close>.\<close>

definition mac_started :: mac_nr where
  "mac_started = snd (init args_ex 10 mac_nr_new)"

definition mac_stopped :: mac_nr where
  "mac_stopped = stop mac_started"

text \<open>Cell configurations: SIBs every 16 frames; a period of 0.\<close>

definition cell_ex :: cell_cfg_t where
  "cell_ex = \<lparr>sibs = [\<lparr>len = 5, period_rf = 16\<rparr>, \<lparr>len = 0, period_rf = 32\<rparr>]\<rparr>"


text \<open>The started object after \<open>cell_cfg\<close> with three SIB entries, of which the RRC fills the first.\<close>

definition mac_configured :: mac_nr where
  "mac_configured =
     (case cell_cfg env_ex 3 cell_ex mac_started of Inr (rc, st) \<Rightarrow> st | Inl f \<Rightarrow> mac_started)"










text \<open>
  The started object after two calls of \<open>rx_data_indication\<close>: a block whose sub-header
  declares more bytes than follow, then a block with one sub-PDU.
\<close>

definition rx_bad :: rx_data_ind_t where
  "rx_bad = \<lparr>rx_tti = 1, rx_rnti = 17, tb = Some [4, 9, 7, 7]\<rparr>"

definition rx_good :: rx_data_ind_t where
  "rx_good = \<lparr>rx_tti = 2, rx_rnti = 17, tb = Some [4, 2, 7, 7]\<rparr>"

definition mac_rx :: mac_nr where
  "mac_rx =
     (case rx_data_indication rx_bad mac_started of
        Inl f \<Rightarrow> mac_started
      | Inr (rc, st) \<Rightarrow>
          (case rx_data_indication rx_good st of Inl f \<Rightarrow> mac_started | Inr (rc', st') \<Rightarrow> st'))"

section \<open>Properties\<close>

subsection \<open>Basic facts\<close>

lemma bind_fault_simps [simp]:
  "bind_fault (Inl x) f = Inl x" "bind_fault (Inr y) f = f y"
  by (simp_all add: bind_fault_def)

lemma emit_fields [simp]:
  "started (emit es st) = started st"
  "args (emit es st) = args st"
  "handles (emit es st) = handles st"
  "pcap (emit es st) = pcap st"
  "cfg (emit es st) = cfg st"
  "bcch_bch_payload (emit es st) = bcch_bch_payload st"
  "ue_tx_buffer (emit es st) = ue_tx_buffer st"
  "ue_rlc_buffer (emit es st) = ue_rlc_buffer st"
  "bcch_dlsch_payload (emit es st) = bcch_dlsch_payload st"
  "ue_rx_pdu_queue (emit es st) = ue_rx_pdu_queue st"
  "trace (emit es st) = trace st @ es"
  by (simp_all add: emit_def)

lemma emit_emit [simp]: "emit es' (emit es st) = emit (es @ es') st"
  by (simp add: emit_def)

lemma emit_Nil [simp]: "emit [] st = st"
  by (simp add: emit_def)

lemma deliveries_simps [simp]:
  "deliveries [] = []"
  "deliveries (ev # es) = (if is_delivery ev then ev # deliveries es else deliveries es)"
  "deliveries (es @ es') = deliveries es @ deliveries es'"
  by (simp_all add: deliveries_def)

lemma frame_refl [simp]: "frame st st"
  by (simp add: frame_def)

lemma frame_trans: "frame st st1 \<Longrightarrow> frame st1 st2 \<Longrightarrow> frame st st2"
  by (auto simp: frame_def)

lemma frame_emit: "deliveries es = [] \<Longrightarrow> frame st (emit es st)"
  by (simp add: frame_def)

lemma deliveries_sib_events [simp]: "deliveries (sib_events p tti D) = []"
  by (induction p tti D rule: sib_events.induct) simp_all

lemma length_sib_pdus [simp]: "length (sib_pdus n D) = length D"
  by (induction n D rule: sib_pdus.induct) simp_all

lemma sib_pdus_Nil [simp]: "sib_pdus n D = [] \<longleftrightarrow> D = []"
  by (cases D) auto


lemma buffer_index_less:
  "SRSRAN_FDD_NOF_HARQ \<le> length (bufs :: byte_buffer list) \<Longrightarrow>
   unat (tti :: 32 word) mod SRSRAN_FDD_NOF_HARQ < length bufs"
  by (simp add: SRSRAN_FDD_NOF_HARQ_def)

subsection \<open>init and stop\<close>

text \<open>A successful \<open>init\<close> leaves an object that is started and ready; \<open>stop\<close> keeps it ready.\<close>

lemma alloc_tx_buffers_ok:
  "alloc_tx_buffers n avail bufs = (True, bufs', avail') \<Longrightarrow> length bufs' = length bufs + n"
proof (induction n arbitrary: avail bufs)
  case 0
  then show ?case by simp
next
  case (Suc n)
  then show ?case
    by (cases "avail = 0") (auto simp: make_byte_buffer_def)
qed

lemma init_ready:
  assumes "init a avail st = (SRSRAN_SUCCESS, st')"
  shows "ready st'" "started st'" "args st' = a"
proof -
  obtain ok bufs avail2 where al:
    "alloc_tx_buffers SRSRAN_FDD_NOF_HARQ (avail - 1) (ue_tx_buffer st) = (ok, bufs, avail2)"
    by (cases "alloc_tx_buffers SRSRAN_FDD_NOF_HARQ (avail - 1) (ue_tx_buffer st)")
  from assms al have r: "avail \<noteq> 0 \<and> ok \<and> avail2 \<noteq> 0"
    by (auto simp: init_def make_byte_buffer_def Let_def SRSRAN_SUCCESS_def SRSRAN_ERROR_def
        split: if_splits)
  with al alloc_tx_buffers_ok [of SRSRAN_FDD_NOF_HARQ "avail - 1" "ue_tx_buffer st" bufs avail2]
  have len: "SRSRAN_FDD_NOF_HARQ \<le> length bufs"
    by simp
  from assms al r len show "ready st'" "started st'" "args st' = a"
    by (auto simp: init_def make_byte_buffer_def Let_def ready_def split: if_splits)
qed

lemma stop_ready: "ready st \<Longrightarrow> ready (stop st) \<and> \<not> started (stop st)"
  by (simp add: stop_def ready_def)

subsection \<open>The example objects, evaluated\<close>

lemma replicate_4: "replicate 4 x = [x, x, x, x]"
  by (simp add: numeral_eq_Suc)

lemma mac_started_eq:
  "mac_started =
     \<lparr>started = True, args = args_ex, handles = True, pcap = False, cfg = None,
      bcch_bch_payload = Some [], ue_tx_buffer = [[], [], [], [], [], [], [], []],
      ue_rlc_buffer = Some [], bcch_dlsch_payload = [], ue_rx_pdu_queue = [],
      trace = [Log Started_msg]\<rparr>"
  by (simp add: mac_started_def init_def args_ex_def mac_nr_new_def make_byte_buffer_def
      SRSRAN_FDD_NOF_HARQ_def emit_def Let_def SRSRAN_SUCCESS_def SRSRAN_ERROR_def eval_nat_numeral)

lemma mac_stopped_eq: "mac_stopped = mac_started\<lparr>started := False\<rparr>"
  by (simp add: mac_stopped_def stop_def mac_started_eq)

lemma mac_configured_eq:
  "mac_configured =
     mac_started\<lparr>cfg := Some cell_ex,
       bcch_dlsch_payload :=
         [\<lparr>sib_index = 0, sib_periodicity = 16, sib_payload = [17, 34]\<rparr>,
          \<lparr>sib_index = 1, sib_periodicity = 16, sib_payload = []\<rparr>,
          \<lparr>sib_index = 2, sib_periodicity = 16, sib_payload = []\<rparr>],
       trace := [Log Started_msg, Rrc_read_pdu_bcch_dlsch 0,
               Log (Including_SIB 0), Rrc_read_pdu_bcch_dlsch 1,
               Log (Couldnt_read_SIB 1), Log (Including_SIB 1),
               Rrc_read_pdu_bcch_dlsch 2, Log (Couldnt_read_SIB 2),
               Log (Including_SIB 2)]\<rparr>"
  by (simp add: mac_configured_def cell_cfg_def mac_started_eq cell_ex_def env_ex_def upt_rec
      emit_def SRSRAN_SUCCESS_def)

lemma mac_configured_ready:
  "ready mac_configured" "sibs_defined (bcch_dlsch_payload mac_configured)"
  by (simp_all add: mac_configured_eq mac_started_eq ready_def sibs_defined_def SRSRAN_FDD_NOF_HARQ_def)







text \<open>The example queue, drained. The proof unfolds the loop once per item.\<close>

lemma mac_rx_eq:
  "mac_rx = mac_started\<lparr>ue_rx_pdu_queue := [[4, 9, 7, 7], [4, 2, 7, 7]],
                         trace := [Log Started_msg, Stack_process_pdus, Stack_process_pdus]\<rparr>"
  by (simp add: mac_rx_def rx_data_indication_def rx_bad_def rx_good_def mac_started_eq emit_def)

lemma env_ex_simps:
  "read_pdu_bcch_bch env_ex tti buf = (0, [1, 2, 3])"
  "read_pdu env_ex r lcid n = (2, \<lambda>i. 7)"
  "mac_sch_pdu_pack env_ex 64 4 [7, 7] = [4, 2, 7, 7]"
  "mac_sch_pdu_unpack env_ex [4, 2, 7, 7] = Some [(4, [7, 7])]"
  "mac_sch_pdu_unpack env_ex [4, 9, 7, 7] = None"
  by (simp_all add: env_ex_def example_format_def unpack.simps)

subsection \<open>The steps of get\_dl\_config on a request with zeroed free entries\<close>

lemma write_pdu_fresh:
  "nof_pdus req = length used \<Longrightarrow> pdus req = used @ replicate (Suc r) pdu_zero \<Longrightarrow>
   write_pdu f req =
     Inr (req\<lparr>pdus := (used @ [f pdu_zero]) @ replicate r pdu_zero, nof_pdus := Suc (length used)\<rparr>)"
  by (simp add: write_pdu_def nth_append list_update_append)




lemma sched_ue_none:
  assumes "handles st" "SRSRAN_FDD_NOF_HARQ \<le> length (ue_tx_buffer st)" "ue_rlc_buffer st \<noteq> None"
    "nof_pdus req = 0" "\<not> 0 < fst (read_pdu e (rnti (args st)) 4 (tb_size (args st) - 2))"
  shows "sched_ue e tti st req =
     Inr (emit [Rlc_read_pdu (rnti (args st)) 4 (tb_size (args st) - 2)]
            (st\<lparr>ue_tx_buffer := (ue_tx_buffer st)[unat tti mod SRSRAN_FDD_NOF_HARQ := []],
                ue_rlc_buffer := Some []\<rparr>),
          req)"
  using assms buffer_index_less [OF assms(2), of tti]
  by (simp add: sched_ue_def Let_def split_beta)

lemma sched_ue_some:
  assumes "handles st" "SRSRAN_FDD_NOF_HARQ \<le> length (ue_tx_buffer st)" "ue_rlc_buffer st \<noteq> None"
    "pdus req = replicate (Suc r) pdu_zero" "nof_pdus req = 0"
    "0 < fst (read_pdu e (rnti (args st)) 4 (tb_size (args st) - 2))"
  shows "sched_ue e tti st req =
     Inr (emit ([Rlc_read_pdu (rnti (args st)) 4 (tb_size (args st) - 2),
                 Log (Adding_MAC_PDU (rnti (args st))), Log (Read_from_RLC (length (ue_sdu e st))),
                 Log (Generated_MAC_PDU (length (mac_sch_pdu_pack e (tb_size (args st)) 4 (ue_sdu e st))))] @
                (if pcap st
                 then [Pcap_write_dl_crnti_nr (mac_sch_pdu_pack e (tb_size (args st)) 4 (ue_sdu e st))
                         (rnti (args st)) (unat tti mod SRSRAN_FDD_NOF_HARQ) tti]
                 else []))
            (st\<lparr>ue_tx_buffer := (ue_tx_buffer st)[unat tti mod SRSRAN_FDD_NOF_HARQ :=
                                   mac_sch_pdu_pack e (tb_size (args st)) 4 (ue_sdu e st)],
                ue_rlc_buffer := Some (ue_sdu e st)\<rparr>),
          req\<lparr>pdus := ue_pdus e tti st @ replicate r pdu_zero, nof_pdus := 1\<rparr>)"
proof -
  let ?i = "unat tti mod SRSRAN_FDD_NOF_HARQ"
  let ?packed = "mac_sch_pdu_pack e (tb_size (args st)) 4 (ue_sdu e st)"
  have "write_pdu (\<lambda>p. p\<lparr>pdu_data := Some (Ue_tx_msg ?i), pdu_length := length ?packed,
                         pdu_index := nof_pdus req\<rparr>) req =
        Inr (req\<lparr>pdus := ([] @ [pdu_zero\<lparr>pdu_data := Some (Ue_tx_msg ?i), pdu_length := length ?packed,
                         pdu_index := nof_pdus req\<rparr>]) @ replicate r pdu_zero,
                 nof_pdus := Suc (length ([] :: tx_request_pdu list))\<rparr>)"
    by (rule write_pdu_fresh) (use assms in simp_all)
  with assms buffer_index_less [OF assms(2), of tti] show ?thesis
    by (simp add: sched_ue_def ue_pdus_def ue_sdu_def Let_def split_beta pdu_zero_def emit_def)
qed

subsection \<open>Every run that returns: what it leaves alone\<close>

lemma write_pdu_Inr:
  "write_pdu f req = Inr req' \<Longrightarrow>
   nof_pdus req' = Suc (nof_pdus req) \<and> length (pdus req') = length (pdus req) \<and> tx_tti req' = tx_tti req"
  by (auto simp: write_pdu_def split: if_splits)

lemma sched_bch_Inr:
  assumes "sched_bch e tti st req = Inr (st1, req1)"
  shows "frame st st1" "ue_tx_buffer st1 = ue_tx_buffer st" "ue_rlc_buffer st1 = ue_rlc_buffer st"
    "nof_pdus req \<le> nof_pdus req1" "nof_pdus req1 = nof_pdus req \<longrightarrow> req1 = req"
    "length (pdus req1) = length (pdus req)"
  using assms
  by (auto simp: sched_bch_def Let_def split_beta bind_fault_def frame_def
      split: if_splits option.splits sum.splits dest!: write_pdu_Inr)

lemma sched_sibs_Inr:
  "sched_sibs tti k ss st req = Inr (st1, req1) \<Longrightarrow>
   frame st st1 \<and> ue_tx_buffer st1 = ue_tx_buffer st \<and> ue_rlc_buffer st1 = ue_rlc_buffer st \<and>
   bcch_bch_payload st1 = bcch_bch_payload st \<and>
   nof_pdus req \<le> nof_pdus req1 \<and> (nof_pdus req1 = nof_pdus req \<longrightarrow> req1 = req) \<and>
   length (pdus req1) = length (pdus req)"
proof (induction ss arbitrary: k st req)
  case Nil
  then show ?case by simp
next
  case (Cons sib rest)
  show ?case
  proof (cases "sib_due tti sib \<and> sib_periodicity sib * 10 \<noteq> 0")
    case False
    with Cons.prems have "sched_sibs tti (Suc k) rest st req = Inr (st1, req1)"
      by (auto simp: sib_due_def split: if_splits)
    from Cons.IH [OF this] show ?thesis .
  next
    case True
    let ?st' = "emit ([Log (Adding_SIB (sib_index sib) tti)] @
                      (if pcap st then [Pcap_write_dl_si_rnti_nr (sib_payload sib) tti] else [])) st"
    from True Cons.prems obtain req' where
      w: "write_pdu (\<lambda>p. p\<lparr>pdu_data := Some (Sib_msg k), pdu_length := length (sib_payload sib),
                           pdu_index := nof_pdus req\<rparr>) req = Inr req'"
      and run: "sched_sibs tti (Suc k) rest ?st' req' = Inr (st1, req1)"
      by (auto simp: sib_due_def bind_fault_def split: sum.splits)
    have f: "frame st ?st'"
      by (rule frame_emit) simp
    from write_pdu_Inr [OF w] Cons.IH [OF run] frame_trans [OF f] show ?thesis
      by auto
  qed
qed

lemma sched_ue_Inr:
  assumes "sched_ue e tti st req = Inr (st1, req1)"
  shows "frame st st1" "bcch_bch_payload st1 = bcch_bch_payload st"
    "length (pdus req1) = length (pdus req)"
  using assms
  by (auto simp: sched_ue_def Let_def split_beta bind_fault_def frame_def
      split: if_splits option.splits sum.splits dest!: write_pdu_Inr)

lemma get_dl_config_Inr:
  assumes "get_dl_config e tti st c req = Inr (st', c', req')"
  shows "frame st st'" "c' = c\<lparr>cfg_tti := tti\<rparr>" "tx_tti req' = tti" "length (pdus req') = length (pdus req)"
proof -
  from assms obtain st1 req1 st2 req2 st3 req3 where
    s1: "sched_bch e tti st req = Inr (st1, req1)"
    and s2: "sched_sibs tti 0 (bcch_dlsch_payload st1) st1 req1 = Inr (st2, req2)"
    and s3: "sched_ue e tti st2 req2 = Inr (st3, req3)"
    and r: "st' = st3" "c' = c\<lparr>cfg_tti := tti\<rparr>" "req' = req3\<lparr>tx_tti := tti\<rparr>"
    by (auto simp: get_dl_config_def bind_fault_def split: sum.splits prod.splits)
  from sched_bch_Inr(1) [OF s1] sched_sibs_Inr [OF s2] sched_ue_Inr(1) [OF s3]
  show "frame st st'"
    unfolding r by (blast intro: frame_trans)
  show "c' = c\<lparr>cfg_tti := tti\<rparr>" "tx_tti req' = tti"
    by (simp_all add: r)
  from sched_bch_Inr(6) [OF s1] sched_sibs_Inr [OF s2] sched_ue_Inr(3) [OF s3]
  show "length (pdus req') = length (pdus req)"
    by (simp add: r)
qed

lemma slot_indication_Inr:
  assumes "slot_indication e max_pdus idx st = Inr (rc, st')"
  shows "rc = SRSRAN_SUCCESS" "frame st st'"
proof -
  from assms obtain st1 c1 req1 where
    g: "get_dl_config e idx st \<lparr>cfg_tti = 0\<rparr> (tx_request_zero max_pdus) = Inr (st1, c1, req1)"
    and r: "rc = SRSRAN_SUCCESS" "st' = emit [Phy_dl_config_request c1, Phy_tx_request req1] st1"
    by (auto simp: slot_indication_def bind_fault_def split: sum.splits prod.splits if_splits)
  show "rc = SRSRAN_SUCCESS" by fact
  have "frame st1 st'"
    unfolding r by (rule frame_emit) simp
  with get_dl_config_Inr(1) [OF g] show "frame st st'"
    by (rule frame_trans)
qed


subsection \<open>The request of a slot\<close>









subsection \<open>The descriptors of a slot, one by one\<close>












subsection \<open>The member started is not read when a request is assembled\<close>

lemma emit_set_started: "emit es (st\<lparr>started := b\<rparr>) = (emit es st)\<lparr>started := b\<rparr>"
  by (simp add: emit_def)

lemma sched_bch_started:
  "sched_bch e tti (st\<lparr>started := b\<rparr>) req =
     map_sum id (map_prod (\<lambda>s. s\<lparr>started := b\<rparr>) id) (sched_bch e tti st req)"
  by (simp add: sched_bch_def Let_def split_beta bind_fault_def emit_def
      split: option.split sum.split)

lemma sched_sibs_started:
  "sched_sibs tti k ss (st\<lparr>started := b\<rparr>) req =
     map_sum id (map_prod (\<lambda>s. s\<lparr>started := b\<rparr>) id) (sched_sibs tti k ss st req)"
proof (induction ss arbitrary: k st req)
  case Nil
  then show ?case by simp
next
  case (Cons sib rest)
  show ?case
    by (simp add: Cons.IH emit_set_started bind_fault_def split: sum.split)
qed

lemma sched_ue_started:
  "sched_ue e tti (st\<lparr>started := b\<rparr>) req =
     map_sum id (map_prod (\<lambda>s. s\<lparr>started := b\<rparr>) id) (sched_ue e tti st req)"
  by (simp add: sched_ue_def Let_def split_beta bind_fault_def emit_def
      split: option.split sum.split)

lemma get_dl_config_started:
  "get_dl_config e tti (st\<lparr>started := b\<rparr>) c req =
     map_sum id (map_prod (\<lambda>s. s\<lparr>started := b\<rparr>) id) (get_dl_config e tti st c req)"
  by (simp add: get_dl_config_def sched_bch_started sched_sibs_started sched_ue_started
      bind_fault_def split_beta split: sum.split)

subsection \<open>The drain loop\<close>

lemma deliveries_subpdu_logs [simp]: "deliveries (subpdu_logs subpdus) = []"
  by (simp add: deliveries_def subpdu_logs_def filter_empty_conv)

lemma subpdu_logs_nth:
  "i < length subpdus \<Longrightarrow>
   subpdu_logs subpdus ! i =
     Log (Handling_subPDU i (length subpdus) (fst (subpdus ! i)) (length (snd (subpdus ! i))))"
  by (simp add: subpdu_logs_def)

lemma handle_pdu_fields [simp]:
  "started (snd (handle_pdu e pdu st)) = started st"
  "ue_rx_pdu_queue (snd (handle_pdu e pdu st)) = ue_rx_pdu_queue st"
  "deliveries (trace (snd (handle_pdu e pdu st))) = deliveries (trace st)"
  by (simp_all add: handle_pdu_def Let_def split: option.split)

lemma process_pdus_stopped: "\<not> started st \<Longrightarrow> process_pdus e st = st"
  by (subst process_pdus.simps) simp

lemma process_pdus_step:
  "started st \<Longrightarrow> ue_rx_pdu_queue st = pdu # rest \<Longrightarrow>
   process_pdus e st = process_pdus e (snd (handle_pdu e pdu (st\<lparr>ue_rx_pdu_queue := rest\<rparr>)))"
  by (subst process_pdus.simps) simp

lemma process_pdus_props:
  "started (process_pdus e st) = started st \<and>
   (started st \<longrightarrow> ue_rx_pdu_queue (process_pdus e st) = []) \<and>
   deliveries (trace (process_pdus e st)) = deliveries (trace st)"
proof (induction e st rule: process_pdus.induct)
  case (1 e st)
  show ?case
  proof (cases "started st \<and> ue_rx_pdu_queue st \<noteq> []")
    case True
    from "1.IH" [OF True] True show ?thesis
      by (subst (1 2 3) process_pdus.simps) simp
  next
    case False
    then have "process_pdus e st = st"
      by (subst process_pdus.simps) auto
    with False show ?thesis by auto
  qed
qed

lemma process_pdus_mac_rx:
  "process_pdus env_ex mac_rx =
     mac_started\<lparr>trace := [Log Started_msg, Stack_process_pdus, Stack_process_pdus,
                            Log (Handling_MAC_PDU 4), Log (Handling_MAC_PDU 4),
                            Log (Handling_subPDU 0 1 4 2)]\<rparr>"
  by (simp add: mac_rx_eq mac_started_eq process_pdus.simps handle_pdu_def env_ex_simps emit_def
      subpdu_logs_def)

subsection \<open>The loop of cell\_cfg\<close>

lemma cell_cfg_sibs_skip:
  "sibs c = s0 # others \<Longrightarrow> \<not> 0 < len s0 \<Longrightarrow> cell_cfg_sibs e c is st = Inr st"
  by (induction "is" arbitrary: st) simp_all

lemma cell_cfg_sibs_add:
  "sibs c = s0 # others \<Longrightarrow> 0 < len s0 \<Longrightarrow> handles st \<Longrightarrow>
   \<exists>st'. cell_cfg_sibs e c is st = Inr st' \<and>
         bcch_dlsch_payload st' =
           bcch_dlsch_payload st @
           map (\<lambda>i. \<lparr>sib_index = of_nat i, sib_periodicity = of_int (period_rf s0),
                      sib_payload = snd (read_pdu_bcch_dlsch e (of_nat i) [])\<rparr>) is"
proof (induction "is" arbitrary: st)
  case Nil
  then show ?case by simp
next
  case (Cons i "is")
  let ?st1 = "(emit ([Rrc_read_pdu_bcch_dlsch (of_nat i)] @
                 (if fst (read_pdu_bcch_dlsch e (of_nat i) []) \<noteq> SRSRAN_SUCCESS
                  then [Log (Couldnt_read_SIB (of_nat i))] else []) @
                 [Log (Including_SIB (of_nat i))]) st)
        \<lparr>bcch_dlsch_payload := bcch_dlsch_payload st @
           [\<lparr>sib_index = of_nat i, sib_periodicity = of_int (period_rf s0),
             sib_payload = snd (read_pdu_bcch_dlsch e (of_nat i) [])\<rparr>]\<rparr>"
  have step: "cell_cfg_sibs e c (i # is) st = cell_cfg_sibs e c is ?st1"
    using Cons.prems by (simp add: split_beta Let_def)
  have "handles ?st1" using Cons.prems by simp
  from Cons.IH [OF Cons.prems(1,2) this] show ?case
    unfolding step by simp
qed

lemma cell_cfg_sibs_deliveries:
  "cell_cfg_sibs e c is st = Inr st' \<Longrightarrow> deliveries (trace st') = deliveries (trace st)"
proof (induction "is" arbitrary: st)
  case Nil
  then show ?case by simp
next
  case (Cons i "is")
  show ?case
  proof (cases "sibs c")
    case Nil
    with Cons.prems show ?thesis by simp
  next
    case (Cons s0 others)
    show ?thesis
    proof (cases "0 < len s0")
      case False
      with Cons Cons.prems Cons.IH show ?thesis by simp
    next
      case True
      with Cons Cons.prems have h: "handles st"
        by (simp split: if_splits)
      from True Cons Cons.prems h Cons.IH show ?thesis
        by (fastforce simp: split_beta Let_def)
    qed
  qed
qed

subsection \<open>No method delivers to the upper layer\<close>

lemma init_deliveries: "deliveries (trace (snd (init a avail st))) = deliveries (trace st)"
  by (simp add: init_def Let_def split_beta)

lemma stop_deliveries: "deliveries (trace (stop st)) = deliveries (trace st)"
  by (simp add: stop_def)

lemma rx_data_indication_deliveries:
  "rx_data_indication rx st = Inr (rc, st') \<Longrightarrow> deliveries (trace st') = deliveries (trace st)"
  by (auto simp: rx_data_indication_def Let_def split: option.splits if_splits)

lemma slot_indication_deliveries:
  "slot_indication e max_pdus idx st = Inr (rc, st') \<Longrightarrow> deliveries (trace st') = deliveries (trace st)"
  by (drule slot_indication_Inr(2)) (auto simp: frame_def)

lemma cell_cfg_deliveries:
  "cell_cfg e max_sibs c st = Inr (rc, st') \<Longrightarrow> deliveries (trace st') = deliveries (trace st)"
  by (auto simp: cell_cfg_def bind_fault_def split: sum.splits dest!: cell_cfg_sibs_deliveries)

subsection \<open>The codec: what is packed unpacks\<close>






text \<open>
  No layout that can be parsed back gets by with two bytes of sub-header for every
  length: there are 65792 byte strings of one or two bytes, so one of the lengths 1 to
  65793 has no sub-header of at most two bytes, and \<open>pack\<close> rejects an SDU of that
  length in a transport block that is two bytes longer.
\<close>

lemma card_short_headers:
  "finite {xs :: byte list. length xs = 1 \<or> length xs = 2}"
  "card {xs :: byte list. length xs = 1 \<or> length xs = 2} = 65792"
proof -
  have eq: "{xs :: byte list. length xs = 1 \<or> length xs = 2} =
      {xs. set xs \<subseteq> UNIV \<and> length xs = 1} \<union> {xs. set xs \<subseteq> UNIV \<and> length xs = 2}"
    by auto
  have fin: "finite {xs :: byte list. set xs \<subseteq> UNIV \<and> length xs = n}" for n
    by (rule finite_lists_length_eq) simp
  have c: "card {xs :: byte list. set xs \<subseteq> UNIV \<and> length xs = n} = 256 ^ n" for n
    using card_lists_length_eq [of "UNIV :: byte set" n] by (simp add: card_word)
  show "finite {xs :: byte list. length xs = 1 \<or> length xs = 2}"
    unfolding eq using fin by simp
  have "card ({xs :: byte list. set xs \<subseteq> UNIV \<and> length xs = 1} \<union> {xs. set xs \<subseteq> UNIV \<and> length xs = 2}) =
      card {xs :: byte list. set xs \<subseteq> UNIV \<and> length xs = 1} + card {xs :: byte list. set xs \<subseteq> UNIV \<and> length xs = 2}"
    by (rule card_Un_disjoint) (use fin in auto)
  then show "card {xs :: byte list. length xs = 1 \<or> length xs = 2} = 65792"
    unfolding eq c by simp
qed

lemma two_byte_reservation_not_enough:
  assumes "wire_format_ok fmt"
  shows "\<exists>n. 0 < n \<and> n \<le> 65793 \<and>
           (\<forall>sdu. length sdu = n \<longrightarrow> pack fmt (n + 2) [(lcid, sdu)] = Inl Insufficient_space)"
proof (rule ccontr)
  assume neg: "\<not> ?thesis"
  let ?H = "{xs :: byte list. length xs = 1 \<or> length xs = 2}"
  have enc: "\<exists>hdr. enc_subhdr fmt lcid n = Some hdr \<and> hdr \<in> ?H" if n: "0 < n" "n \<le> 65793" for n
  proof -
    from neg n obtain sdu :: "byte list" where s: "length sdu = n"
      and p: "pack fmt (n + 2) [(lcid, sdu)] \<noteq> Inl Insufficient_space"
      by blast
    from p s obtain hdr where h: "enc_subhdr fmt lcid n = Some hdr" "length hdr + n \<le> n + 2"
      by (auto split: option.splits if_splits)
    from assms h(1) have "length hdr \<noteq> 0"
      by (auto simp: wire_format_ok_def)
    with h(2) have "length hdr = 1 \<or> length hdr = 2"
      by arith
    with h(1) show ?thesis
      by simp
  qed
  define f where "f n = the (enc_subhdr fmt lcid n)" for n
  have inj: "inj_on f {1..65793}"
  proof (rule inj_onI)
    fix n m :: nat
    assume "n \<in> {1..65793}" "m \<in> {1..65793}" and eq: "f n = f m"
    then obtain hn hm where h: "enc_subhdr fmt lcid n = Some hn" "enc_subhdr fmt lcid m = Some hm"
      using enc [of n] enc [of m] by auto
    with eq have "hn = hm"
      by (simp add: f_def)
    with assms h have "Some (lcid, Some n, length hn) = Some (lcid, Some m, length hn)"
      unfolding wire_format_ok_def by (metis append_Nil2)
    then show "n = m"
      by simp
  qed
  have sub: "f ` {1..65793} \<subseteq> ?H"
  proof (rule image_subsetI)
    fix n :: nat
    assume "n \<in> {1..65793}"
    then obtain hdr where "enc_subhdr fmt lcid n = Some hdr" "hdr \<in> ?H"
      using enc [of n] by auto
    then show "f n \<in> ?H"
      by (simp add: f_def)
  qed
  from card_inj_on_le [OF inj sub card_short_headers(1)] have "card {1..65793 :: nat} \<le> 65792"
    unfolding card_short_headers(2) .
  then show False
    by simp
qed

section \<open>The claims\<close>

subsection \<open>C1: what happens to the sub-PDUs\<close>

text \<open>
  C1, amended. When the drain loop runs on a started object and the block at the head
  of the queue unpacks, \<open>handle_pdu\<close> returns \<open>SRSRAN_SUCCESS\<close> after logging the block
  and then each sub-PDU in order, with its position, the number of sub-PDUs, its
  logical-channel id and the length of its SDU. No sub-PDU is handed to the RLC: the
  call of \<open>write_pdu\<close> is commented out, and neither the drain loop nor any other
  method of the class delivers anything to the upper layer.
\<close>

theorem subpdus_logged_not_delivered:
  "(started st \<and> ue_rx_pdu_queue st = pdu # rest \<and> mac_sch_pdu_unpack e pdu = Some subpdus \<longrightarrow>
      handle_pdu e pdu (st\<lparr>ue_rx_pdu_queue := rest\<rparr>) =
        (SRSRAN_SUCCESS,
         emit (Log (Handling_MAC_PDU (length pdu)) # subpdu_logs subpdus) (st\<lparr>ue_rx_pdu_queue := rest\<rparr>)) \<and>
      process_pdus e st =
        process_pdus e
          (emit (Log (Handling_MAC_PDU (length pdu)) # subpdu_logs subpdus) (st\<lparr>ue_rx_pdu_queue := rest\<rparr>))) \<and>
   length (subpdu_logs subpdus) = length subpdus \<and>
   (\<forall>i<length subpdus.
      subpdu_logs subpdus ! i =
        Log (Handling_subPDU i (length subpdus) (fst (subpdus ! i)) (length (snd (subpdus ! i))))) \<and>
   deliveries (trace (snd (handle_pdu e pdu st))) = deliveries (trace st) \<and>
   deliveries (trace (process_pdus e st)) = deliveries (trace st) \<and>
   (\<forall>rc st'. slot_indication e max_pdus idx st = Inr (rc, st') \<longrightarrow>
      deliveries (trace st') = deliveries (trace st)) \<and>
   (\<forall>rc st'. rx_data_indication rx st = Inr (rc, st') \<longrightarrow>
      deliveries (trace st') = deliveries (trace st)) \<and>
   (\<forall>rc st'. cell_cfg e max_sibs c st = Inr (rc, st') \<longrightarrow>
      deliveries (trace st') = deliveries (trace st)) \<and>
   deliveries (trace (snd (init a avail st))) = deliveries (trace st) \<and>
   deliveries (trace (stop st)) = deliveries (trace st)"
proof -
  have 1: "started st \<and> ue_rx_pdu_queue st = pdu # rest \<and> mac_sch_pdu_unpack e pdu = Some subpdus \<longrightarrow>
      handle_pdu e pdu (st\<lparr>ue_rx_pdu_queue := rest\<rparr>) =
        (SRSRAN_SUCCESS,
         emit (Log (Handling_MAC_PDU (length pdu)) # subpdu_logs subpdus) (st\<lparr>ue_rx_pdu_queue := rest\<rparr>)) \<and>
      process_pdus e st =
        process_pdus e
          (emit (Log (Handling_MAC_PDU (length pdu)) # subpdu_logs subpdus) (st\<lparr>ue_rx_pdu_queue := rest\<rparr>))"
  proof (intro impI)
    assume a: "started st \<and> ue_rx_pdu_queue st = pdu # rest \<and> mac_sch_pdu_unpack e pdu = Some subpdus"
    then have h: "handle_pdu e pdu (st\<lparr>ue_rx_pdu_queue := rest\<rparr>) =
        (SRSRAN_SUCCESS,
         emit (Log (Handling_MAC_PDU (length pdu)) # subpdu_logs subpdus) (st\<lparr>ue_rx_pdu_queue := rest\<rparr>))"
      by (simp add: handle_pdu_def)
    from a process_pdus_step [of st pdu rest e] h
    show "handle_pdu e pdu (st\<lparr>ue_rx_pdu_queue := rest\<rparr>) =
        (SRSRAN_SUCCESS,
         emit (Log (Handling_MAC_PDU (length pdu)) # subpdu_logs subpdus) (st\<lparr>ue_rx_pdu_queue := rest\<rparr>)) \<and>
      process_pdus e st =
        process_pdus e
          (emit (Log (Handling_MAC_PDU (length pdu)) # subpdu_logs subpdus) (st\<lparr>ue_rx_pdu_queue := rest\<rparr>))"
      by simp
  qed
  have 2: "length (subpdu_logs subpdus) = length subpdus"
    by (simp add: subpdu_logs_def)
  have 3: "\<forall>i<length subpdus.
      subpdu_logs subpdus ! i =
        Log (Handling_subPDU i (length subpdus) (fst (subpdus ! i)) (length (snd (subpdus ! i))))"
    by (simp add: subpdu_logs_nth)
  have 4: "deliveries (trace (snd (handle_pdu e pdu st))) = deliveries (trace st)"
    by simp
  have 5: "deliveries (trace (process_pdus e st)) = deliveries (trace st)"
    using process_pdus_props [of e st] by simp
  have 6: "\<forall>rc st'. slot_indication e max_pdus idx st = Inr (rc, st') \<longrightarrow>
      deliveries (trace st') = deliveries (trace st)"
    by (blast dest: slot_indication_deliveries)
  have 7: "\<forall>rc st'. rx_data_indication rx st = Inr (rc, st') \<longrightarrow>
      deliveries (trace st') = deliveries (trace st)"
    by (blast dest: rx_data_indication_deliveries)
  have 8: "\<forall>rc st'. cell_cfg e max_sibs c st = Inr (rc, st') \<longrightarrow>
      deliveries (trace st') = deliveries (trace st)"
    by (blast dest: cell_cfg_deliveries)
  show ?thesis
    by (intro conjI 1 2 3 4 5 6 7 8 init_deliveries stop_deliveries)
qed

theorem subpdus_logged_not_delivered_witness:
  "handle_pdu env_ex [4, 2, 7, 7] (mac_started\<lparr>ue_rx_pdu_queue := []\<rparr>) =
     (SRSRAN_SUCCESS,
      emit [Log (Handling_MAC_PDU 4), Log (Handling_subPDU 0 1 4 2)] (mac_started\<lparr>ue_rx_pdu_queue := []\<rparr>)) \<and>
   deliveries (trace (process_pdus env_ex mac_rx)) = []"
proof -
  let ?st = "mac_started\<lparr>ue_rx_pdu_queue := [[4, 2, 7, 7]]\<rparr>"
  have q: "started ?st \<and> ue_rx_pdu_queue ?st = [4, 2, 7, 7] # [] \<and>
           mac_sch_pdu_unpack env_ex [4, 2, 7, 7] = Some [(4, [7, 7])]"
    by (simp add: mac_started_eq env_ex_simps)
  have len: "length [4, 2, 7, 7 :: byte] = 4"
    by simp
  have logs: "subpdu_logs [(4 :: 32 word, [7, 7 :: byte])] = [Log (Handling_subPDU 0 1 4 2)]"
    by (simp add: subpdu_logs_def)
  have d: "deliveries (trace mac_rx) = []"
    by (simp add: mac_rx_eq mac_started_eq)
  from subpdus_logged_not_delivered [of ?st "[4, 2, 7, 7]" "[]" env_ex "[(4, [7, 7])]", unfolded len logs]
    subpdus_logged_not_delivered [of mac_rx _ _ env_ex] q d
  show ?thesis
    by simp
qed

text \<open>
  The claim as the specification states it fails: after a block with the sub-PDU
  (4, [7, 7]) has been drained, the trace has no call of \<open>write_pdu\<close> at all.
\<close>

theorem subpdu_forwarding_counterexample:
  "started mac_rx \<and> ue_rx_pdu_queue mac_rx = [[4, 9, 7, 7], [4, 2, 7, 7]] \<and>
   rnti (args mac_rx) = 17 \<and>
   mac_sch_pdu_unpack env_ex [4, 2, 7, 7] = Some [(4, [7, 7])] \<and>
   Rlc_write_pdu 17 4 [7, 7] \<notin> set (trace (process_pdus env_ex mac_rx)) \<and>
   deliveries (trace (process_pdus env_ex mac_rx)) = []"
  by (simp add: process_pdus_mac_rx env_ex_simps) (simp add: mac_rx_eq mac_started_eq args_ex_def)

subsection \<open>C2: the member started\<close>

text \<open>
  C2, amended. Of the three per-slot operations only the drain loop tests \<open>started\<close>:
  on an object that is not started it pops nothing, processes nothing and leaves the
  object as it is. \<open>slot_indication\<close> and \<open>rx_data_indication\<close> never read the
  member: on an object that is not started they do what they do on the same object
  when it is started, the one assembling a request and handing it to the PHY, the
  other pushing the block on the queue and notifying the stack.
\<close>

theorem started_guards_only_drain_loop:
  "process_pdus e (st\<lparr>started := False\<rparr>) = st\<lparr>started := False\<rparr> \<and>
   slot_indication e max_pdus idx (st\<lparr>started := b\<rparr>) = with_started b (slot_indication e max_pdus idx st) \<and>
   rx_data_indication rx (st\<lparr>started := b\<rparr>) = with_started b (rx_data_indication rx st)"
proof (intro conjI)
  show "process_pdus e (st\<lparr>started := False\<rparr>) = st\<lparr>started := False\<rparr>"
    by (rule process_pdus_stopped) simp
  show "slot_indication e max_pdus idx (st\<lparr>started := b\<rparr>) = with_started b (slot_indication e max_pdus idx st)"
    by (cases "get_dl_config e idx st \<lparr>cfg_tti = 0\<rparr> (tx_request_zero max_pdus)")
      (auto simp: slot_indication_def with_started_def get_dl_config_started emit_def)
  show "rx_data_indication rx (st\<lparr>started := b\<rparr>) = with_started b (rx_data_indication rx st)"
    by (simp add: rx_data_indication_def with_started_def Let_def emit_def split: option.split)
qed

theorem started_guards_only_drain_loop_witness:
  "process_pdus env_ex (mac_rx\<lparr>started := False\<rparr>) = mac_rx\<lparr>started := False\<rparr> \<and>
   slot_indication env_ex 4 0 mac_stopped =
     with_started False (slot_indication env_ex 4 0 mac_started) \<and>
   rx_data_indication rx_good mac_stopped = with_started False (rx_data_indication rx_good mac_started)"
  using started_guards_only_drain_loop [of env_ex mac_rx 4 0 False rx_good]
    started_guards_only_drain_loop [of env_ex mac_started 4 0 False rx_good]
  by (simp add: mac_stopped_eq)

text \<open>
  The claim as the specification states it fails on the object that \<open>init\<close> has
  started and \<open>stop\<close> has stopped: \<open>slot_indication\<close> assembles the MIB and hands the
  request to the PHY, \<open>rx_data_indication\<close> pushes the block on the queue.
\<close>

theorem stopped_object_counterexample:
  "\<not> started mac_stopped \<and>
   slot_indication env_ex 4 0 mac_stopped =
     Inr (SRSRAN_SUCCESS,
          mac_stopped\<lparr>bcch_bch_payload := Some [1, 2, 3],
            trace := [Log Started_msg, Rrc_read_pdu_bcch_bch 0, Log (Adding_BCH 0),
                      Phy_dl_config_request \<lparr>cfg_tti = 0\<rparr>,
                      Phy_tx_request
                        \<lparr>tx_tti = 0, nof_pdus = 1,
                         pdus = [\<lparr>pbch_mib_present = True, pdu_data = Some Bcch_bch_msg,
                                  pdu_length = 3, pdu_index = 0\<rparr>,
                                 pdu_zero, pdu_zero, pdu_zero]\<rparr>]\<rparr>) \<and>
   rx_data_indication rx_good mac_stopped =
     Inr (SRSRAN_SUCCESS,
          mac_stopped\<lparr>ue_rx_pdu_queue := [[4, 2, 7, 7]],
                      trace := [Log Started_msg, Stack_process_pdus]\<rparr>)"
  by (simp add: mac_stopped_eq mac_started_eq slot_indication_def get_dl_config_def sched_bch_def
      sched_ue_def write_pdu_def tx_request_zero_def env_ex_simps SRSRAN_SUCCESS_def emit_def
      rx_data_indication_def rx_good_def replicate_4 pdu_zero_def flip: numeral_3_eq_3)

subsection \<open>C3: the MIB\<close>




subsection \<open>C4: the SIBs\<close>




subsection \<open>C5: the PDU of the UE\<close>

text \<open>
  C5. On an object that \<open>init\<close> has set up, in a slot in which the MIB step and the
  SIB loop return without having appended a descriptor: \<open>get_dl_config\<close> asks the RLC
  for \<open>tb_size - 2\<close> bytes (in 32 bits) for \<open>args.rnti\<close> and logical channel 4, once.
  When the RLC returns a positive count, the bytes are packed into the transmit
  buffer at \<open>slot index mod SRSRAN_FDD_NOF_HARQ\<close> and the request has exactly one
  descriptor, which points to that buffer and carries its length. When the RLC returns
  zero or a negative count, the request has no descriptor.
\<close>

theorem ue_pdu_when_nothing_broadcast:
  assumes "ready st" and "0 < max_pdus"
    and s1: "sched_bch e idx st (tx_request_zero max_pdus) = Inr (st1, req1)"
    and s2: "sched_sibs idx 0 (bcch_dlsch_payload st1) st1 req1 = Inr (st2, req2)"
    and n2: "nof_pdus req2 = 0"
  shows "\<exists>st' es tx.
     slot_indication e max_pdus idx st = Inr (SRSRAN_SUCCESS, st') \<and>
     trace st' = trace st2 @ Rlc_read_pdu (rnti (args st)) 4 (tb_size (args st) - 2) # es @
                   [Phy_dl_config_request \<lparr>cfg_tti = idx\<rparr>, Phy_tx_request tx] \<and>
     (\<forall>r l n. Rlc_read_pdu r l n \<notin> set es) \<and>
     (if 0 < fst (read_pdu e (rnti (args st)) 4 (tb_size (args st) - 2))
      then nof_pdus tx = 1 \<and>
           pdus tx ! 0 =
             \<lparr>pbch_mib_present = False,
              pdu_data = Some (Ue_tx_msg (unat idx mod SRSRAN_FDD_NOF_HARQ)),
              pdu_length = length (mac_sch_pdu_pack e (tb_size (args st)) 4 (ue_sdu e st)),
              pdu_index = 0\<rparr> \<and>
           ue_tx_buffer st' ! (unat idx mod SRSRAN_FDD_NOF_HARQ) =
             mac_sch_pdu_pack e (tb_size (args st)) 4 (ue_sdu e st) \<and>
           ue_sdu e st =
             map (snd (read_pdu e (rnti (args st)) 4 (tb_size (args st) - 2)))
               [0..<nat (fst (read_pdu e (rnti (args st)) 4 (tb_size (args st) - 2)))]
      else nof_pdus tx = 0)"
proof -
  let ?zero = "tx_request_zero max_pdus"
  let ?i = "unat idx mod SRSRAN_FDD_NOF_HARQ"
  let ?rd = "Rlc_read_pdu (rnti (args st)) 4 (tb_size (args st) - 2)"
  from \<open>0 < max_pdus\<close> obtain r where r: "max_pdus = Suc r"
    by (cases max_pdus) auto
  note f1 = sched_bch_Inr [OF s1]
  note f2 = sched_sibs_Inr [OF s2]
  from f2 have m2: "nof_pdus req1 \<le> nof_pdus req2" "nof_pdus req2 = nof_pdus req1 \<longrightarrow> req2 = req1"
    by blast+
  have "nof_pdus req1 = nof_pdus ?zero"
    using f1(4) m2(1) n2 by (simp add: tx_request_zero_def)
  with f1(5) have req1: "req1 = ?zero" by simp
  have "nof_pdus req2 = nof_pdus req1"
    using n2 by (simp add: req1 tx_request_zero_def)
  with m2(2) req1 have req2: "req2 = ?zero"
    by simp
  have f02: "frame st st2"
    using f1(1) f2 by (blast intro: frame_trans)
  from \<open>ready st\<close> f02
  have a2: "handles st2" "SRSRAN_FDD_NOF_HARQ \<le> length (ue_tx_buffer st2)" "ue_rlc_buffer st2 \<noteq> None"
    and args2: "args st2 = args st"
    by (auto simp: ready_def frame_def)
  have z: "pdus req2 = replicate (Suc r) pdu_zero" "nof_pdus req2 = 0"
    by (simp_all add: req2 tx_request_zero_def r)
  have u2: "ue_sdu e st2 = ue_sdu e st" "ue_pdus e idx st2 = ue_pdus e idx st"
    by (simp_all add: ue_sdu_def ue_pdus_def args2)
  have ss1: "bcch_dlsch_payload st1 = bcch_dlsch_payload st"
    using f1(1) by (simp add: frame_def)
  have sdu: "ue_sdu e st =
             map (snd (read_pdu e (rnti (args st)) 4 (tb_size (args st) - 2)))
               [0..<nat (fst (read_pdu e (rnti (args st)) 4 (tb_size (args st) - 2)))]"
    by (simp add: ue_sdu_def split_beta)
  show ?thesis
  proof (cases "0 < fst (read_pdu e (rnti (args st)) 4 (tb_size (args st) - 2))")
    case True
    let ?packed = "mac_sch_pdu_pack e (tb_size (args st)) 4 (ue_sdu e st)"
    let ?es = "[Log (Adding_MAC_PDU (rnti (args st))), Log (Read_from_RLC (length (ue_sdu e st))),
                Log (Generated_MAC_PDU (length ?packed))] @
               (if pcap st2 then [Pcap_write_dl_crnti_nr ?packed (rnti (args st)) ?i idx] else [])"
    let ?st3 = "emit (?rd # ?es)
                  (st2\<lparr>ue_tx_buffer := (ue_tx_buffer st2)[?i := ?packed], ue_rlc_buffer := Some (ue_sdu e st)\<rparr>)"
    let ?req3 = "req2\<lparr>pdus := ue_pdus e idx st @ replicate r pdu_zero, nof_pdus := 1\<rparr>"
    have s3: "sched_ue e idx st2 req2 = Inr (?st3, ?req3)"
      using sched_ue_some [OF a2 z, of e idx] True by (simp add: args2 u2)
    let ?tx = "?req3\<lparr>tx_tti := idx\<rparr>"
    let ?st' = "emit [Phy_dl_config_request \<lparr>cfg_tti = idx\<rparr>, Phy_tx_request ?tx] ?st3"
    have run: "slot_indication e max_pdus idx st = Inr (SRSRAN_SUCCESS, ?st')"
      using a2(1) by (simp add: slot_indication_def get_dl_config_def s1 s2 s3)
    have tr: "trace ?st' = trace st2 @ ?rd # ?es @ [Phy_dl_config_request \<lparr>cfg_tti = idx\<rparr>, Phy_tx_request ?tx]"
      by simp
    have no: "\<forall>r l n. Rlc_read_pdu r l n \<notin> set ?es"
      by simp
    have res: "if 0 < fst (read_pdu e (rnti (args st)) 4 (tb_size (args st) - 2))
      then nof_pdus ?tx = 1 \<and>
           pdus ?tx ! 0 =
             \<lparr>pbch_mib_present = False, pdu_data = Some (Ue_tx_msg ?i),
              pdu_length = length ?packed, pdu_index = 0\<rparr> \<and>
           ue_tx_buffer ?st' ! ?i = ?packed \<and>
           ue_sdu e st =
             map (snd (read_pdu e (rnti (args st)) 4 (tb_size (args st) - 2)))
               [0..<nat (fst (read_pdu e (rnti (args st)) 4 (tb_size (args st) - 2)))]
      else nof_pdus ?tx = 0"
      using True buffer_index_less [OF a2(2), of idx] sdu by (simp add: ue_pdus_def)
    show ?thesis
      by (intro exI [of _ ?st'] exI [of _ ?es] exI [of _ ?tx] conjI run tr no res)
  next
    case False
    let ?st3 = "emit [?rd] (st2\<lparr>ue_tx_buffer := (ue_tx_buffer st2)[?i := []], ue_rlc_buffer := Some []\<rparr>)"
    have s3: "sched_ue e idx st2 req2 = Inr (?st3, req2)"
      using sched_ue_none [OF a2 z(2), of e idx] False by (simp add: args2)
    let ?tx = "req2\<lparr>tx_tti := idx\<rparr>"
    let ?st' = "emit [Phy_dl_config_request \<lparr>cfg_tti = idx\<rparr>, Phy_tx_request ?tx] ?st3"
    have run: "slot_indication e max_pdus idx st = Inr (SRSRAN_SUCCESS, ?st')"
      using a2(1) by (simp add: slot_indication_def get_dl_config_def s1 s2 s3)
    have tr: "trace ?st' = trace st2 @ ?rd # [] @ [Phy_dl_config_request \<lparr>cfg_tti = idx\<rparr>, Phy_tx_request ?tx]"
      by simp
    have no: "\<forall>r l n. Rlc_read_pdu r l n \<notin> set []"
      by simp
    have res: "if 0 < fst (read_pdu e (rnti (args st)) 4 (tb_size (args st) - 2))
      then nof_pdus ?tx = 1 \<and>
           pdus ?tx ! 0 =
             \<lparr>pbch_mib_present = False, pdu_data = Some (Ue_tx_msg ?i),
              pdu_length = length (mac_sch_pdu_pack e (tb_size (args st)) 4 (ue_sdu e st)), pdu_index = 0\<rparr> \<and>
           ue_tx_buffer ?st' ! ?i = mac_sch_pdu_pack e (tb_size (args st)) 4 (ue_sdu e st) \<and>
           ue_sdu e st =
             map (snd (read_pdu e (rnti (args st)) 4 (tb_size (args st) - 2)))
               [0..<nat (fst (read_pdu e (rnti (args st)) 4 (tb_size (args st) - 2)))]
      else nof_pdus ?tx = 0"
      using False by (simp add: z)
    show ?thesis
      by (intro exI [of _ ?st'] exI [of _ "[]"] exI [of _ ?tx] conjI run tr no res)
  qed
qed

theorem ue_pdu_when_nothing_broadcast_witness:
  "\<exists>st' es tx.
     slot_indication env_ex 4 1 mac_configured = Inr (SRSRAN_SUCCESS, st') \<and>
     trace st' = trace mac_configured @ Rlc_read_pdu 17 4 62 # es @
                   [Phy_dl_config_request \<lparr>cfg_tti = 1\<rparr>, Phy_tx_request tx] \<and>
     nof_pdus tx = 1 \<and> pdu_data (pdus tx ! 0) = Some (Ue_tx_msg 1) \<and> pdu_length (pdus tx ! 0) = 4 \<and>
     ue_tx_buffer st' ! 1 = [4, 2, 7, 7]"
proof -
  have s1: "sched_bch env_ex 1 mac_configured (tx_request_zero 4) = Inr (mac_configured, tx_request_zero 4)"
    by (simp add: sched_bch_def)
  have s2: "sched_sibs 1 0 (bcch_dlsch_payload mac_configured) mac_configured (tx_request_zero 4) =
              Inr (mac_configured, tx_request_zero 4)"
    by (simp add: mac_configured_eq mac_started_eq)
  have n2: "nof_pdus (tx_request_zero 4) = 0"
    by (simp add: tx_request_zero_def)
  have a: "rnti (args mac_configured) = 17" "tb_size (args mac_configured) = 64"
    by (simp_all add: mac_configured_eq mac_started_eq args_ex_def)
  have sdu: "ue_sdu env_ex mac_configured = [7, 7]"
    by (simp add: ue_sdu_def a env_ex_simps upt_rec)
  from ue_pdu_when_nothing_broadcast [OF mac_configured_ready(1) _ s1 s2 n2]
  show ?thesis
    by (auto simp: a sdu env_ex_simps SRSRAN_FDD_NOF_HARQ_def)
qed

subsection \<open>C6: capacity and order\<close>




subsection \<open>C7: a block that does not parse\<close>

text \<open>
  C7. When the drain loop runs on a started object and the block at the head of the
  queue does not unpack: \<open>handle_pdu\<close> returns \<open>SRSRAN_ERROR\<close> after its one log line,
  the block is gone from the queue, the loop goes on with the rest of the queue as if
  the block had never been there, it ends with an empty queue, and nothing has been
  delivered to the upper layer.
\<close>

theorem malformed_pdu_discarded:
  assumes "started st" and "ue_rx_pdu_queue st = pdu # rest" and "mac_sch_pdu_unpack e pdu = None"
  shows "handle_pdu e pdu (st\<lparr>ue_rx_pdu_queue := rest\<rparr>) =
           (SRSRAN_ERROR, emit [Log (Handling_MAC_PDU (length pdu))] (st\<lparr>ue_rx_pdu_queue := rest\<rparr>)) \<and>
         process_pdus e st =
           process_pdus e (emit [Log (Handling_MAC_PDU (length pdu))] (st\<lparr>ue_rx_pdu_queue := rest\<rparr>)) \<and>
         ue_rx_pdu_queue (process_pdus e st) = [] \<and>
         deliveries (trace (process_pdus e st)) = deliveries (trace st)"
proof -
  have h: "handle_pdu e pdu (st\<lparr>ue_rx_pdu_queue := rest\<rparr>) =
           (SRSRAN_ERROR, emit [Log (Handling_MAC_PDU (length pdu))] (st\<lparr>ue_rx_pdu_queue := rest\<rparr>))"
    using assms(3) by (simp add: handle_pdu_def)
  from process_pdus_step [OF assms(1,2), of e] h process_pdus_props [of e st] assms(1)
  show ?thesis by simp
qed

theorem malformed_pdu_discarded_witness:
  "handle_pdu env_ex [4, 9, 7, 7] (mac_rx\<lparr>ue_rx_pdu_queue := [[4, 2, 7, 7]]\<rparr>) =
     (SRSRAN_ERROR, emit [Log (Handling_MAC_PDU 4)] (mac_rx\<lparr>ue_rx_pdu_queue := [[4, 2, 7, 7]]\<rparr>)) \<and>
   process_pdus env_ex mac_rx =
     process_pdus env_ex (emit [Log (Handling_MAC_PDU 4)] (mac_rx\<lparr>ue_rx_pdu_queue := [[4, 2, 7, 7]]\<rparr>)) \<and>
   ue_rx_pdu_queue (process_pdus env_ex mac_rx) = [] \<and>
   trace (process_pdus env_ex mac_rx) =
     trace mac_rx @ [Log (Handling_MAC_PDU 4), Log (Handling_MAC_PDU 4), Log (Handling_subPDU 0 1 4 2)]"
proof -
  have q: "started mac_rx" "ue_rx_pdu_queue mac_rx = [4, 9, 7, 7] # [[4, 2, 7, 7]]"
    by (simp_all add: mac_rx_eq mac_started_eq)
  have len: "length [4, 9, 7, 7 :: byte] = 4"
    by simp
  note t = malformed_pdu_discarded [OF q env_ex_simps(5), unfolded len]
  have tr: "trace (process_pdus env_ex mac_rx) =
     trace mac_rx @ [Log (Handling_MAC_PDU 4), Log (Handling_MAC_PDU 4), Log (Handling_subPDU 0 1 4 2)]"
    by (simp add: process_pdus_mac_rx) (simp add: mac_rx_eq mac_started_eq)
  from t tr show ?thesis
    by blast
qed

subsection \<open>C8: packing and unpacking\<close>




subsection \<open>C10: cell\_cfg\<close>

text \<open>
  C10. \<open>cell_cfg\<close> looks at the first SIB descriptor only. When its length is
  positive (and the RRC handle is bound), the call returns \<open>SRSRAN_SUCCESS\<close> and has
  appended \<open>MAX_SIBS\<close> entries to the cached SIBs, with the indices 0 to
  \<open>MAX_SIBS - 1\<close> in ascending order, each with the period of the first descriptor
  and the payload the RRC left for its index. When its length is not positive, the
  call returns \<open>SRSRAN_SUCCESS\<close> and has only stored the configuration, whatever the
  other descriptors are.
\<close>

theorem cell_cfg_first_sib_only:
  assumes "sibs c = s0 # others"
  shows "(0 < len s0 \<and> handles st \<longrightarrow>
           (\<exists>st'. cell_cfg e max_sibs c st = Inr (SRSRAN_SUCCESS, st') \<and>
              bcch_dlsch_payload st' =
                bcch_dlsch_payload st @
                map (\<lambda>i. \<lparr>sib_index = of_nat i, sib_periodicity = of_int (period_rf s0),
                           sib_payload = snd (read_pdu_bcch_dlsch e (of_nat i) [])\<rparr>) [0..<max_sibs])) \<and>
         (\<not> 0 < len s0 \<longrightarrow> cell_cfg e max_sibs c st = Inr (SRSRAN_SUCCESS, st\<lparr>cfg := Some c\<rparr>))"
proof (intro conjI impI)
  assume a: "0 < len s0 \<and> handles st"
  then have "handles (st\<lparr>cfg := Some c\<rparr>)" by simp
  from cell_cfg_sibs_add [OF assms conjunct1 [OF a] this, of e "[0..<max_sibs]"]
  show "\<exists>st'. cell_cfg e max_sibs c st = Inr (SRSRAN_SUCCESS, st') \<and>
              bcch_dlsch_payload st' =
                bcch_dlsch_payload st @
                map (\<lambda>i. \<lparr>sib_index = of_nat i, sib_periodicity = of_int (period_rf s0),
                           sib_payload = snd (read_pdu_bcch_dlsch e (of_nat i) [])\<rparr>) [0..<max_sibs]"
    by (auto simp: cell_cfg_def)
next
  assume "\<not> 0 < len s0"
  from cell_cfg_sibs_skip [OF assms this] show "cell_cfg e max_sibs c st = Inr (SRSRAN_SUCCESS, st\<lparr>cfg := Some c\<rparr>)"
    by (simp add: cell_cfg_def)
qed

theorem cell_cfg_first_sib_only_witness:
  "(\<exists>st'. cell_cfg env_ex 3 cell_ex mac_started = Inr (SRSRAN_SUCCESS, st') \<and>
      bcch_dlsch_payload st' =
        [\<lparr>sib_index = 0, sib_periodicity = 16, sib_payload = [17, 34]\<rparr>,
         \<lparr>sib_index = 1, sib_periodicity = 16, sib_payload = []\<rparr>,
         \<lparr>sib_index = 2, sib_periodicity = 16, sib_payload = []\<rparr>]) \<and>
   cell_cfg env_ex 3 \<lparr>sibs = [\<lparr>len = 0, period_rf = 16\<rparr>, \<lparr>len = 5, period_rf = 32\<rparr>]\<rparr> mac_started =
     Inr (SRSRAN_SUCCESS,
          mac_started\<lparr>cfg := Some \<lparr>sibs = [\<lparr>len = 0, period_rf = 16\<rparr>, \<lparr>len = 5, period_rf = 32\<rparr>]\<rparr>\<rparr>)"
proof -
  have s: "sibs cell_ex = \<lparr>len = 5, period_rf = 16\<rparr> # [\<lparr>len = 0, period_rf = 32\<rparr>]"
    by (simp add: cell_ex_def)
  have s': "sibs \<lparr>sibs = [\<lparr>len = 0, period_rf = 16\<rparr>, \<lparr>len = 5, period_rf = 32\<rparr>]\<rparr> =
              \<lparr>len = 0, period_rf = 16\<rparr> # [\<lparr>len = 5, period_rf = 32\<rparr>]"
    by simp
  from cell_cfg_first_sib_only [OF s, of mac_started env_ex 3]
    cell_cfg_first_sib_only [OF s', of mac_started env_ex 3]
  show ?thesis
    by (simp add: mac_started_eq upt_rec env_ex_def)
qed

end
